theory Spec2Isabelle
  imports Complex_Main "HOL-Library.Product_Lexorder" "HOL-Library.List_Lexorder"
    "HOL-Library.Char_ord" "HOL-Library.Multiset"
begin

section \<open>Weighted graph, Dijkstra with a lazy-deletion heap, and path reconstruction\<close>

text \<open>
  The development embeds \<^verbatim>\<open>src/task_3.py\<close>: the class \<^verbatim>\<open>Graph\<close>, the function
  \<^verbatim>\<open>dijkstra_with_paths\<close> and the function \<^verbatim>\<open>reconstruct_path\<close>.

  Modelling decisions.
  \<^item> Vertex labels are any linearly ordered type; the concrete examples use \<^typ>\<open>string\<close>
    with the lexicographic order on character codes, which is the order of Python \<^verbatim>\<open>str\<close>.
  \<^item> Python \<^verbatim>\<open>float\<close> weights and distances are idealised as \<^typ>\<open>real\<close>; the sentinel
    \<^verbatim>\<open>float("inf")\<close> is the constructor \<open>PInf\<close>. Rounding, NaN and infinite edge
    weights are outside the model.
  \<^item> A \<^verbatim>\<open>dict\<close> is a partial map; a lookup \<^verbatim>\<open>d[k]\<close> of a missing key is the error
    \<open>KeyError\<close>, an assignment \<^verbatim>\<open>d[k] = x\<close> never fails.
  \<^item> The library module \<^verbatim>\<open>heapq\<close> is modelled by its contract: the heap is a list,
    \<^verbatim>\<open>heappush\<close> adds an entry, \<^verbatim>\<open>heappop\<close> removes and returns the least entry in the
    order of Python tuples (first component, then second).
  \<^item> The \<^verbatim>\<open>while\<close> loops may run forever, so they are partial functions into
    \<^typ>\<open>'a option\<close>; \<open>None\<close> is divergence.
\<close>

subsection \<open>Data model\<close>

datatype error = KeyError | IndexError

datatype xreal = Fin real | PInf

record 'v graph =
  adj :: "'v \<rightharpoonup> ('v \<times> real) list"

record 'v state =
  graph_s :: "'v graph"
  dist_s :: "'v \<rightharpoonup> xreal"
  prev_s :: "'v \<rightharpoonup> 'v option"
  heap_s :: "(real \<times> 'v) list"

subsection \<open>Class Graph\<close>

definition empty_graph :: "'v graph" where
  "empty_graph = \<lparr>adj = Map.empty\<rparr>"

definition add_vertex :: "'v \<Rightarrow> 'v graph \<Rightarrow> 'v graph" where
  "add_vertex v g = (if adj g v = None then g\<lparr>adj := (adj g)(v \<mapsto> [])\<rparr> else g)"

text \<open>\<^verbatim>\<open>self.adj[u].append(e)\<close>: a lookup followed by an in-place append.\<close>

definition adj_append :: "'v \<Rightarrow> 'v \<times> real \<Rightarrow> 'v graph \<Rightarrow> error + 'v graph" where
  "adj_append u e g =
     (case adj g u of
        None \<Rightarrow> Inl KeyError
      | Some es \<Rightarrow> Inr (g\<lparr>adj := (adj g)(u \<mapsto> es @ [e])\<rparr>))"

definition add_edge :: "'v \<Rightarrow> 'v \<Rightarrow> real \<Rightarrow> bool \<Rightarrow> 'v graph \<Rightarrow> error + 'v graph" where
  "add_edge u v weight undirected g =
     (let g1 = add_vertex u g;
          g2 = add_vertex v g1
      in case adj_append u (v, weight) g2 of
           Inl e \<Rightarrow> Inl e
         | Inr g3 \<Rightarrow> if undirected then adj_append v (u, weight) g3 else Inr g3)"

subsection \<open>Comparisons with the infinite sentinel\<close>

text \<open>\<open>lt_x r x\<close> is \<^verbatim>\<open>r < x\<close> and \<open>gt_x r x\<close> is \<^verbatim>\<open>r > x\<close> for a finite \<open>r\<close>.\<close>

fun lt_x :: "real \<Rightarrow> xreal \<Rightarrow> bool" where
  "lt_x r (Fin d) = (r < d)"
| "lt_x r PInf = True"

fun gt_x :: "real \<Rightarrow> xreal \<Rightarrow> bool" where
  "gt_x r (Fin d) = (r > d)"
| "gt_x r PInf = False"

subsection \<open>The heap\<close>

definition heappush :: "'a list \<Rightarrow> 'a \<Rightarrow> 'a list" where
  "heappush h x = h @ [x]"

definition heappop :: "('a::linorder) list \<Rightarrow> 'a \<times> 'a list" where
  "heappop h = (Min (set h), remove1 (Min (set h)) h)"

subsection \<open>dijkstra\_with\_paths\<close>

definition relax :: "'v \<Rightarrow> real \<Rightarrow> 'v \<times> real \<Rightarrow> 'v state \<Rightarrow> (error \<times> 'v state) + 'v state" where
  "relax u current_dist e st =
     (case e of (v, weight) \<Rightarrow>
        let new_dist = current_dist + weight in
        case dist_s st v of
          None \<Rightarrow> Inl (KeyError, st)
        | Some dv \<Rightarrow>
            if lt_x new_dist dv
            then Inr (st\<lparr>dist_s := (dist_s st)(v \<mapsto> Fin new_dist),
                         prev_s := (prev_s st)(v \<mapsto> Some u),
                         heap_s := heappush (heap_s st) (new_dist, v)\<rparr>)
            else Inr st)"

fun relax_all :: "'v \<Rightarrow> real \<Rightarrow> ('v \<times> real) list \<Rightarrow> 'v state \<Rightarrow> (error \<times> 'v state) + 'v state" where
  "relax_all u current_dist [] st = Inr st"
| "relax_all u current_dist (e # es) st =
     (case relax u current_dist e st of
        Inl err \<Rightarrow> Inl err
      | Inr st' \<Rightarrow> relax_all u current_dist es st')"

partial_function (option) dijkstra_loop ::
  "('v::linorder) state \<Rightarrow> ((error \<times> 'v state) + 'v state) option" where
  "dijkstra_loop st =
     (if heap_s st = [] then Some (Inr st)
      else case heappop (heap_s st) of ((current_dist, u), h') \<Rightarrow>
        let st1 = st\<lparr>heap_s := h'\<rparr> in
        case dist_s st1 u of
          None \<Rightarrow> Some (Inl (KeyError, st1))
        | Some du \<Rightarrow>
            if gt_x current_dist du then dijkstra_loop st1
            else case adj (graph_s st1) u of
                   None \<Rightarrow> Some (Inl (KeyError, st1))
                 | Some es \<Rightarrow>
                     (case relax_all u current_dist es st1 of
                        Inl err \<Rightarrow> Some (Inl err)
                      | Inr st2 \<Rightarrow> dijkstra_loop st2))"

declare dijkstra_loop.simps [code]

definition init_state :: "'v graph \<Rightarrow> 'v \<Rightarrow> 'v state" where
  "init_state g start =
     \<lparr>graph_s = g,
      dist_s = (\<lambda>v. map_option (\<lambda>_. PInf) (adj g v))(start \<mapsto> Fin 0),
      prev_s = (\<lambda>v. map_option (\<lambda>_. None) (adj g v)),
      heap_s = [(0, start)]\<rparr>"

text \<open>The whole run, keeping the final state (or the state at the raise).\<close>

definition dijkstra_run ::
  "('v::linorder) graph \<Rightarrow> 'v \<Rightarrow> ((error \<times> 'v state) + 'v state) option" where
  "dijkstra_run g start = dijkstra_loop (init_state g start)"

text \<open>What the caller receives: the raised error, or the pair \<^verbatim>\<open>(dist, prev)\<close>.\<close>

definition visible ::
  "(error \<times> 'v state) + 'v state \<Rightarrow> error + ('v \<rightharpoonup> xreal) \<times> ('v \<rightharpoonup> 'v option)" where
  "visible r = (case r of Inl (e, _) \<Rightarrow> Inl e | Inr st \<Rightarrow> Inr (dist_s st, prev_s st))"

definition dijkstra_with_paths ::
  "('v::linorder) graph \<Rightarrow> 'v \<Rightarrow> (error + ('v \<rightharpoonup> xreal) \<times> ('v \<rightharpoonup> 'v option)) option" where
  "dijkstra_with_paths g start = map_option visible (dijkstra_run g start)"

subsection \<open>reconstruct\_path\<close>

partial_function (option) walk_back ::
  "('v \<rightharpoonup> 'v option) \<Rightarrow> 'v \<Rightarrow> 'v option \<Rightarrow> 'v list \<Rightarrow> (error + 'v list) option" where
  "walk_back prev start cur path =
     (case cur of
        None \<Rightarrow> Some (Inr path)
      | Some c \<Rightarrow>
          let path' = path @ [c] in
          if c = start then Some (Inr path')
          else case prev c of
                 None \<Rightarrow> Some (Inl KeyError)
               | Some p \<Rightarrow> walk_back prev start p path')"

declare walk_back.simps [code]

definition reconstruct_path ::
  "('v \<rightharpoonup> 'v option) \<Rightarrow> 'v \<Rightarrow> 'v \<Rightarrow> (error + 'v list) option" where
  "reconstruct_path prev start target =
     (if start = target then Some (Inr [start])
      else case prev target of
             None \<Rightarrow> Some (Inl KeyError)
           | Some None \<Rightarrow> Some (Inr [])
           | Some (Some _) \<Rightarrow>
               (case walk_back prev start (Some target) [] of
                  None \<Rightarrow> None
                | Some (Inl e) \<Rightarrow> Some (Inl e)
                | Some (Inr path) \<Rightarrow>
                    if path = [] then Some (Inl IndexError)
                    else if last path \<noteq> start then Some (Inr [])
                    else Some (Inr (rev path))))"

subsection \<open>Vocabulary of the properties\<close>

text \<open>The state a run ends in, whether it returns or raises.\<close>

definition outcome_state :: "(error \<times> 'v state) + 'v state \<Rightarrow> 'v state" where
  "outcome_state r = (case r of Inl (e, st) \<Rightarrow> st | Inr st \<Rightarrow> st)"

text \<open>
  Every graph built from the empty one by \<open>add_vertex\<close> and \<open>add_edge\<close> has finitely many
  keys, and every edge target is a key.
\<close>

definition wf_graph :: "'v graph \<Rightarrow> bool" where
  "wf_graph g \<longleftrightarrow>
     finite (dom (adj g)) \<and>
     (\<forall>u es v w. adj g u = Some es \<longrightarrow> (v, w) \<in> set es \<longrightarrow> v \<in> dom (adj g))"

definition nonneg_weights :: "'v graph \<Rightarrow> bool" where
  "nonneg_weights g \<longleftrightarrow> (\<forall>u es v w. adj g u = Some es \<longrightarrow> (v, w) \<in> set es \<longrightarrow> 0 \<le> w)"









subsection \<open>Invariant of the main loop\<close>





subsection \<open>Example graphs\<close>

text \<open>Undirected edges A--B of weight 1, B--C of weight 2, A--C of weight 4; D is isolated.\<close>

definition triangle_graph :: "string graph" where
  "triangle_graph = \<lparr>adj = [''A'' \<mapsto> [(''B'', 1), (''C'', 4)],
                            ''B'' \<mapsto> [(''A'', 1), (''C'', 2)],
                            ''C'' \<mapsto> [(''B'', 2), (''A'', 4)],
                            ''D'' \<mapsto> []]\<rparr>"

section \<open>Properties\<close>

text \<open>
  C5. For every predecessor map and every vertex \<open>s\<close>, \<open>reconstruct_path prev s s\<close> returns
  the one-element sequence \<open>[s]\<close>, whatever the map contains and also when \<open>s\<close> is not one
  of its keys.
\<close>

theorem reconstruct_path_same: "reconstruct_path prev s s = Some (Inr [s])"
  by (simp add: reconstruct_path_def)

subsection \<open>The inner loop keeps the invariant\<close>





subsection \<open>One iteration of the outer loop\<close>





subsection \<open>The outer loop terminates and keeps the invariant\<close>






subsection \<open>Distances\<close>








lemma Min_set_Cons: "Min (set (x # xs)) = (if xs = [] then x else min x (Min (set xs)))"
  by (cases xs) simp_all

lemmas run_simps = dijkstra_with_paths_def visible_def dijkstra_run_def init_state_def dijkstra_loop.simps
  heappop_def heappush_def relax_def Min_set_Cons





subsection \<open>Unknown start vertices and completeness of the maps\<close>







subsection \<open>Reconstructed paths and predecessor chains\<close>














subsection \<open>Graphs built through the interface\<close>

lemma wf_empty_graph: "wf_graph empty_graph" "nonneg_weights empty_graph"
  by (simp_all add: wf_graph_def nonneg_weights_def empty_graph_def)

lemma wf_add_vertex:
  "wf_graph g \<Longrightarrow> wf_graph (add_vertex v g)"
  "nonneg_weights g \<Longrightarrow> nonneg_weights (add_vertex v g)"
  unfolding wf_graph_def nonneg_weights_def add_vertex_def
  by (auto split: if_splits)

lemma wf_graphD:
  "wf_graph g \<Longrightarrow> adj g u = Some es \<Longrightarrow> (v, w) \<in> set es \<Longrightarrow> v \<in> dom (adj g)"
  unfolding wf_graph_def by blast

lemma nonneg_weightsD:
  "nonneg_weights g \<Longrightarrow> adj g u = Some es \<Longrightarrow> (v, w) \<in> set es \<Longrightarrow> 0 \<le> w"
  unfolding nonneg_weights_def by blast

lemma adj_append_wf:
  assumes wf: "wf_graph g" and u: "u \<in> dom (adj g)" and v: "v \<in> dom (adj g)"
  shows "\<exists>g'. adj_append u (v, w) g = Inr g' \<and> wf_graph g' \<and> dom (adj g') = dom (adj g)"
proof -
  from u obtain es where es: "adj g u = Some es" by auto
  let ?g' = "g\<lparr>adj := (adj g)(u \<mapsto> es @ [(v, w)])\<rparr>"
  have d: "dom (adj ?g') = dom (adj g)" using u by auto
  have "x \<in> dom (adj g)" if "adj ?g' y = Some fs" "(x, c) \<in> set fs" for x y c fs
  proof (cases "y = u")
    case True
    with that have "(x, c) \<in> set es \<or> x = v" by auto
    with wf_graphD[OF wf es] v show ?thesis by blast
  next
    case False
    with that have "adj g y = Some fs" by simp
    from wf_graphD[OF wf this that(2)] show ?thesis .
  qed
  then have "wf_graph ?g'" using wf unfolding wf_graph_def d by auto
  with es d show ?thesis by (simp add: adj_append_def)
qed

lemma adj_append_nonneg:
  assumes nn: "nonneg_weights g" and w: "0 \<le> w" and r: "adj_append u (v, w) g = Inr g'"
  shows "nonneg_weights g'"
proof -
  from r obtain es where es: "adj g u = Some es"
    and g': "g' = g\<lparr>adj := (adj g)(u \<mapsto> es @ [(v, w)])\<rparr>"
    by (auto simp: adj_append_def split: option.splits)
  have "0 \<le> c" if "adj g' y = Some fs" "(x, c) \<in> set fs" for x y c fs
  proof (cases "y = u")
    case True
    with that g' have "(x, c) \<in> set es \<or> c = w" by auto
    with nonneg_weightsD[OF nn es] w show ?thesis by blast
  next
    case False
    with that g' have "adj g y = Some fs" by simp
    from nonneg_weightsD[OF nn this that(2)] show ?thesis .
  qed
  then show ?thesis unfolding nonneg_weights_def by blast
qed

lemma wf_add_edge:
  assumes "wf_graph g"
  shows "\<exists>g'. add_edge u v w b g = Inr g' \<and> wf_graph g'"
proof -
  let ?g2 = "add_vertex v (add_vertex u g)"
  have wf2: "wf_graph ?g2" using assms by (intro wf_add_vertex)
  have uv: "u \<in> dom (adj ?g2)" "v \<in> dom (adj ?g2)" by (auto simp: add_vertex_def)
  from adj_append_wf[OF wf2 uv, of w] obtain g3 where
    g3: "adj_append u (v, w) ?g2 = Inr g3" "wf_graph g3" "dom (adj g3) = dom (adj ?g2)" by blast
  from adj_append_wf[OF g3(2), of v u w] uv g3(3) obtain g4 where
    g4: "adj_append v (u, w) g3 = Inr g4" "wf_graph g4" by auto
  show ?thesis using g3 g4 by (cases b) (simp_all add: add_edge_def)
qed

lemma nonneg_add_edge:
  assumes "nonneg_weights g" and "0 \<le> w" and "add_edge u v w b g = Inr g'"
  shows "nonneg_weights g'"
proof -
  let ?g2 = "add_vertex v (add_vertex u g)"
  have nn2: "nonneg_weights ?g2" using assms(1) by (intro wf_add_vertex)
  from assms(3) obtain g3 where g3: "adj_append u (v, w) ?g2 = Inr g3"
    and r: "(if b then adj_append v (u, w) g3 else Inr g3) = Inr g'"
    by (auto simp: add_edge_def split: sum.splits)
  note nn3 = adj_append_nonneg[OF nn2 assms(2) g3]
  show ?thesis
  proof (cases b)
    case True
    with r have "adj_append v (u, w) g3 = Inr g'" by simp
    from adj_append_nonneg[OF nn3 assms(2) this] show ?thesis .
  next
    case False
    with r nn3 show ?thesis by simp
  qed
qed

lemma triangle_graph_built:
  "(case add_edge ''A'' ''B'' 1 True empty_graph of Inr g1 \<Rightarrow>
     (case add_edge ''B'' ''C'' 2 True g1 of Inr g2 \<Rightarrow>
       (case add_edge ''A'' ''C'' 4 True g2 of Inr g3 \<Rightarrow> add_vertex ''D'' g3))) = triangle_graph"
  by (simp add: triangle_graph_def add_edge_def add_vertex_def adj_append_def empty_graph_def
      fun_eq_iff)

subsection \<open>The graph argument and self-loops\<close>

lemma relax_all_append:
  "relax_all u cd (es @ fs) st =
     (case relax_all u cd es st of Inl err \<Rightarrow> Inl err | Inr st' \<Rightarrow> relax_all u cd fs st')"
  by (induction es arbitrary: st) (auto split: sum.splits)

text \<open>
  C10. \<open>add_edge v v w\<close> with \<open>undirected\<close> set succeeds and leaves \<open>v\<close>'s adjacency
  list extended by the two entries \<open>(v, w), (v, w)\<close>; the inner loop, which relaxes every
  entry of the list in order, therefore relaxes the self-loop twice at the end of the list.
\<close>

theorem add_edge_self_loop_twice:
  "add_edge v v w True g =
     Inr (g\<lparr>adj := (adj g)(v \<mapsto> (case adj g v of None \<Rightarrow> [] | Some es \<Rightarrow> es) @ [(v, w), (v, w)])\<rparr>)
   \<and> relax_all v cd (es @ [(v, w), (v, w)]) st =
       (case relax_all v cd es st of
          Inl err \<Rightarrow> Inl err
        | Inr s1 \<Rightarrow> (case relax v cd (v, w) s1 of
                      Inl err \<Rightarrow> Inl err
                    | Inr s2 \<Rightarrow> relax v cd (v, w) s2))"
  by (auto simp: add_edge_def add_vertex_def adj_append_def relax_all_append split: sum.splits option.splits)

lemma relax_graph: "relax u cd e st = r \<Longrightarrow> graph_s (outcome_state r) = graph_s st"
  by (auto simp: relax_def outcome_state_def Let_def split: prod.splits option.splits if_splits)

lemma relax_all_graph: "relax_all u cd es st = r \<Longrightarrow> graph_s (outcome_state r) = graph_s st"
proof (induction es arbitrary: st)
  case Nil
  then show ?case by (auto simp: outcome_state_def)
next
  case (Cons e es)
  show ?case
  proof (cases "relax u cd e st")
    case (Inl err)
    with Cons.prems relax_graph[OF Inl] show ?thesis by auto
  next
    case (Inr st')
    with Cons.prems Cons.IH[of st'] relax_graph[OF Inr] show ?thesis
      by (auto simp: outcome_state_def)
  qed
qed

lemma dijkstra_loop_graph:
  "dijkstra_loop st = Some r \<Longrightarrow> graph_s (outcome_state r) = graph_s st"
proof (induction rule: dijkstra_loop.raw_induct[rotated 1, consumes 1])
  case (1 loop st r)
  show ?case
  proof (cases "heap_s st = []")
    case True
    with 1(2) show ?thesis by (auto simp: outcome_state_def)
  next
    case False
    obtain cd u h' where pop: "heappop (heap_s st) = ((cd, u), h')"
      by (metis prod.exhaust)
    let ?st1 = "st\<lparr>heap_s := h'\<rparr>"
    show ?thesis
    proof (cases "dist_s st u")
      case None
      with 1(2) False pop show ?thesis by (auto simp: outcome_state_def)
    next
      case (Some du)
      show ?thesis
      proof (cases "gt_x cd du")
        case True
        with 1(2) False pop Some have "loop ?st1 = Some r" by simp
        from 1(1)[OF this] show ?thesis by simp
      next
        case stale: False
        show ?thesis
        proof (cases "adj (graph_s st) u")
          case None
          with 1(2) False pop Some stale show ?thesis by (auto simp: outcome_state_def)
        next
          case es: (Some es)
          show ?thesis
          proof (cases "relax_all u cd es ?st1")
            case (Inl err)
            with 1(2) False pop Some stale es have "r = Inl err" by simp
            with relax_all_graph[OF Inl] show ?thesis by simp
          next
            case (Inr st2)
            with 1(2) False pop Some stale es have "loop st2 = Some r" by simp
            from 1(1)[OF this] relax_all_graph[OF Inr] show ?thesis
              by (simp add: outcome_state_def)
          qed
        qed
      qed
    qed
  qed
qed

text \<open>
  C9. Whenever a run ends, by returning or by raising, the graph in its final state is the
  graph it was given: the same keys and the same adjacency lists in the same order.
\<close>

theorem dijkstra_run_graph_unchanged:
  "dijkstra_run g start = Some r \<Longrightarrow> graph_s (outcome_state r) = g"
  using dijkstra_loop_graph[of "init_state g start" r]
  by (simp add: dijkstra_run_def init_state_def)

theorem dijkstra_run_graph_unchanged_witness:
  "(\<exists>r. dijkstra_run triangle_graph ''A'' = Some r \<and> graph_s (outcome_state r) = triangle_graph) \<and>
   (\<exists>r. dijkstra_run triangle_graph ''Z'' = Some r \<and> graph_s (outcome_state r) = triangle_graph)"
proof -
  have "\<exists>r. dijkstra_run triangle_graph ''A'' = Some r"
    by (simp add: run_simps triangle_graph_def)
  then obtain r where r: "dijkstra_run triangle_graph ''A'' = Some r" ..
  have "\<exists>r. dijkstra_run triangle_graph ''Z'' = Some r"
    by (simp add: run_simps triangle_graph_def)
  then obtain r' where r': "dijkstra_run triangle_graph ''Z'' = Some r'" ..
  from dijkstra_run_graph_unchanged[OF r] dijkstra_run_graph_unchanged[OF r'] r r'
  show ?thesis by blast
qed

subsection \<open>Errors of reconstruct\_path\<close>







subsection \<open>Determinism\<close>










end
